theory Spec2Isabelle
  imports Main "HOL-Library.AList" "HOL-Library.Multiset"
begin

section \<open>Python strings and lists\<close>

text \<open>
  A Python \<open>str\<close> is modelled as a \<open>string\<close>, one \<open>char\<close> per code point (code points
  below 256). The functions of this section are the built-ins the program calls, written out:
  \<open>str.startswith\<close>, \<open>str.isspace\<close>, \<open>str.strip\<close>, \<open>str.split\<close> with a separator,
  \<open>str.join\<close>, \<open>any\<close>, the infix \<open>in\<close> on strings and indexing a list with a
  constant that is not negative.
\<close>

datatype error = IndexError | SystemExit int | RequestFailed | BadResponseBody

definition startswith :: "string \<Rightarrow> string \<Rightarrow> bool" where
  "startswith s p = (take (length p) s = p)"

text \<open>
  The code points below 256 that \<open>str.isspace\<close> accepts: tab, line feed, vertical tab, form
  feed, carriage return, the four separators 0x1C to 0x1F, space, NEL and the no-break space.
\<close>

definition isspace :: "char \<Rightarrow> bool" where
  "isspace c = (of_char c \<in> {9, 10, 11, 12, 13, 28, 29, 30, 31, 32, 133, 160 :: nat})"

definition strip :: "string \<Rightarrow> string" where
  "strip s = rev (dropWhile isspace (rev (dropWhile isspace s)))"

text \<open>
  \<open>s.split(sep)\<close> scans from the left and cuts at every occurrence of \<open>sep\<close> that does not
  overlap the one before it. \<open>cur\<close> is the piece read so far. Python raises ValueError for
  an empty separator; the program passes the constants \<open>" "\<close> and \<open>": "\<close> only.
\<close>

fun split_from :: "string \<Rightarrow> string \<Rightarrow> string \<Rightarrow> string list" where
  "split_from sep cur [] = [cur]"
| "split_from sep cur (c # cs) =
     (if startswith (c # cs) sep then cur # split_from sep [] (drop (length sep - 1) cs)
      else split_from sep (cur @ [c]) cs)"

definition py_split :: "string \<Rightarrow> string \<Rightarrow> string list" where
  "py_split s sep = split_from sep [] s"

fun py_join :: "string \<Rightarrow> string list \<Rightarrow> string" where
  "py_join sep [] = []"
| "py_join sep [x] = x"
| "py_join sep (x # y # ys) = x @ sep @ py_join sep (y # ys)"

definition py_any :: "bool list \<Rightarrow> bool" where
  "py_any bs = list_ex (\<lambda>b. b) bs"

text \<open>\<open>p in s\<close> for strings: \<open>p\<close> occurs in \<open>s\<close> as a contiguous run.\<close>

fun contains :: "string \<Rightarrow> string \<Rightarrow> bool" where
  "contains [] p = (p = [])"
| "contains (c # cs) p = (startswith (c # cs) p \<or> contains cs p)"

text \<open>\<open>xs[i]\<close> for a constant \<open>i\<close> that is not negative: IndexError out of range.\<close>

definition item :: "'a list \<Rightarrow> nat \<Rightarrow> error + 'a" where
  "item xs i = (if i < length xs then Inr (xs ! i) else Inl IndexError)"

text \<open>
  A \<open>dict\<close> is an association list in insertion order with one pair per key.
  \<open>d[k] = v\<close> is \<open>AList.update k v d\<close>: the value is replaced where the key stands, and a
  new key goes to the end. \<open>map_of\<close> reads it.
\<close>

type_synonym dict = "(string \<times> string) list"

section \<open>Keyword search: \<open>search_in_bioproject\<close>\<close>

text \<open>
  \<open>requests.get\<close> is the remote search endpoint. It is a parameter of the model: a function
  of the state of the outside world and the URL, giving the new state of the world and either
  no response (the call raised) or a response. Of a response the program reads
  \<open>status_code\<close>, and \<open>json()["esearchresult"]["idlist"]\<close>, which is \<open>None\<close> here when
  decoding the body or one of the two lookups raises.
\<close>

record response =
  status_code :: int
  idlist :: "string list option"

type_synonym 'w http_get = "'w \<Rightarrow> string \<Rightarrow> response option \<times> 'w"

text \<open>
  The state of the loop: the world, the list \<open>results_list\<close>, and a log of the requests
  made so far, each with its outcome. The log is not a variable of the program: it records
  which phrases were queried.
\<close>

record 'w search_state =
  net :: 'w
  requests :: "(string \<times> response option) list"
  results_list :: "string list"

definition search_url :: "string \<Rightarrow> string \<Rightarrow> string \<Rightarrow> string" where
  "search_url keyword from_date to_date =
     (let keyword_phrase = py_join ''+'' (py_split keyword '' '')
      in ''https://eutils.ncbi.nlm.nih.gov/entrez/eutils/esearch.fcgi?db=BioProject&term=(''
           @ keyword_phrase @ '')''
         @ ''+AND+('' @ [CHR 0x22] @ from_date @ [CHR 0x22]
           @ ''[Registration%20Date]%20:%20%22'' @ to_date @ ''%22[Registration%20Date])''
         @ ''&RetMax=999999&retmode=json'')"

text \<open>
  The \<open>for keyword in keywords\<close> loop. \<open>exit(1)\<close> raises \<open>SystemExit 1\<close>, which ends the
  loop and the function; so does an exception of \<open>requests.get\<close> or of reading the body.
  The messages printed are left out.
\<close>

fun search_loop ::
  "'w http_get \<Rightarrow> string \<Rightarrow> string \<Rightarrow> string list \<Rightarrow> 'w search_state
     \<Rightarrow> error option \<times> 'w search_state" where
  "search_loop get from_date to_date [] s = (None, s)"
| "search_loop get from_date to_date (keyword # keywords) s =
     (let url = search_url keyword from_date to_date;
          (r, w) = get (net s) url;
          s1 = s\<lparr>net := w, requests := requests s @ [(url, r)]\<rparr>
      in case r of
           None \<Rightarrow> (Some RequestFailed, s1)
         | Some resp \<Rightarrow>
             if status_code resp = 200 then
               (case idlist resp of
                  None \<Rightarrow> (Some BadResponseBody, s1)
                | Some ids \<Rightarrow>
                    search_loop get from_date to_date keywords
                      (s1\<lparr>results_list := results_list s1 @ ids\<rparr>))
             else (Some (SystemExit 1), s1))"

text \<open>
  \<open>list(set(results_list))\<close> keeps one copy of each identifier, in the iteration order of
  the set, which depends on the hashes of the strings and is not fixed by the program.
  \<open>set_order\<close> is that order: a parameter which rearranges the list of distinct elements.

  The result is what the caller gets (the list, or the exception), the log of requests and
  the world.
\<close>

definition search_in_bioproject ::
  "'w http_get \<Rightarrow> (string list \<Rightarrow> string list) \<Rightarrow> string list \<Rightarrow> string \<Rightarrow> string \<Rightarrow> 'w
     \<Rightarrow> (error + string list) \<times> (string \<times> response option) list \<times> 'w" where
  "search_in_bioproject get set_order keywords from_date to_date w =
     (case search_loop get from_date to_date keywords
             \<lparr>net = w, requests = [], results_list = []\<rparr> of
        (Some e, s) \<Rightarrow> (Inl e, requests s, net s)
      | (None, s) \<Rightarrow> (Inr (set_order (remdups (results_list s))), requests s, net s))"

text \<open>The identifier list a logged request contributed: that of a response with status 200.\<close>

definition ids_of :: "response option \<Rightarrow> string list" where
  "ids_of r =
     (case r of
        None \<Rightarrow> []
      | Some resp \<Rightarrow>
          if status_code resp = 200 then (case idlist resp of None \<Rightarrow> [] | Some ids \<Rightarrow> ids)
          else [])"

section \<open>Validation: \<open>check_proper_entrez_response\<close>\<close>

definition check_proper_entrez_response :: "string list \<Rightarrow> bool" where
  "check_proper_entrez_response cleaned_result =
     (if \<not> py_any (map (\<lambda>result. startswith result ''1. '') cleaned_result) then False
      else if \<not> py_any (map (\<lambda>result. startswith result ''BioProject Accession: '')
                           cleaned_result) then False
      else True)"

section \<open>Accession lookup: \<open>convert_ids_to_accessions\<close>\<close>

text \<open>
  The \<open>try\<close> block (\<open>Entrez.efetch\<close>, \<open>readlines\<close>, \<open>close\<close>) is the remote fetch endpoint,
  a parameter of the model: from the state of the world and the identifier it gives the new
  state and either the lines read or \<open>None\<close> when any of the three calls raised. The contact
  address set in \<open>Entrez.email\<close> is part of that world.
\<close>

type_synonym 'w fetcher = "'w \<Rightarrow> string \<Rightarrow> string list option \<times> 'w"

text \<open>
  The state of the loop: the world, the two dictionaries, and a log of the identifiers
  passed to \<open>Entrez.efetch\<close>, one entry per attempt. The log is not a variable of the program.
\<close>

record 'w resolver_state =
  entrez :: 'w
  fetch_log :: "string list"
  bioproject_accessions :: dict
  failed_bioprojects :: dict

text \<open>
  \<open>for i in range(3)\<close> with \<open>break\<close> on success and \<open>continue\<close> on an exception:
  \<open>Some\<close> the lines of the first attempt that succeeds, \<open>None\<close> when the loop runs out,
  which is when its \<open>else\<close> branch runs.
\<close>

fun fetch_retry ::
  "'w fetcher \<Rightarrow> nat \<Rightarrow> string \<Rightarrow> 'w resolver_state \<Rightarrow> string list option \<times> 'w resolver_state"
  where
  "fetch_retry efetch 0 bioproject_id s = (None, s)"
| "fetch_retry efetch (Suc n) bioproject_id s =
     (let (r, w) = efetch (entrez s) bioproject_id;
          s1 = s\<lparr>entrez := w, fetch_log := fetch_log s @ [bioproject_id]\<rparr>
      in case r of
           Some entrez_result \<Rightarrow> (Some entrez_result, s1)
         | None \<Rightarrow> fetch_retry efetch n bioproject_id s1)"

text \<open>\<open>[result.strip() for result in entrez_result if result != "\n"]\<close>\<close>

definition clean :: "string list \<Rightarrow> string list" where
  "clean entrez_result = map strip (filter (\<lambda>result. result \<noteq> [CHR 0x0A]) entrez_result)"

text \<open>
  The three statements of the valid branch: the abstract, the accession line and the
  accession, with the IndexError of each indexing.
\<close>

definition parse_entry :: "string list \<Rightarrow> error + (string \<times> string)" where
  "parse_entry cleaned_result =
     (case item (filter (\<lambda>result. startswith result ''1. '') cleaned_result) 0 of
        Inl e \<Rightarrow> Inl e
      | Inr abstract \<Rightarrow>
          (case item (filter (\<lambda>result. startswith result ''BioProject Accession: '')
                        cleaned_result) 0 of
             Inl e \<Rightarrow> Inl e
           | Inr accession_line \<Rightarrow>
               (case item (py_split accession_line '': '') 1 of
                  Inl e \<Rightarrow> Inl e
                | Inr bioproject_accession \<Rightarrow> Inr (bioproject_accession, abstract))))"

text \<open>
  The body of the loop over the identifiers for one identifier, and how the loop goes on
  after it. The \<open>break\<close> in the \<open>else\<close> branch of the retry loop stands outside that loop's
  body, so it leaves the loop over the identifiers. \<open>str_list\<close> is Python's \<open>str\<close> on a
  list of strings, a parameter of the model.
\<close>

datatype flow = Next | Break | Raise error

definition process_id ::
  "(string list \<Rightarrow> string) \<Rightarrow> 'w fetcher \<Rightarrow> string \<Rightarrow> 'w resolver_state
     \<Rightarrow> flow \<times> 'w resolver_state" where
  "process_id str_list efetch bioproject_id s =
     (case fetch_retry efetch 3 bioproject_id s of
        (None, s1) \<Rightarrow>
          (Break, s1\<lparr>failed_bioprojects :=
                       AList.update bioproject_id ''Failed to fetch'' (failed_bioprojects s1)\<rparr>)
      | (Some entrez_result, s1) \<Rightarrow>
          (let cleaned_result = clean entrez_result
           in if check_proper_entrez_response cleaned_result then
                (case parse_entry cleaned_result of
                   Inl e \<Rightarrow> (Raise e, s1)
                 | Inr (bioproject_accession, abstract) \<Rightarrow>
                     (Next, s1\<lparr>bioproject_accessions :=
                                 AList.update bioproject_accession abstract
                                   (bioproject_accessions s1)\<rparr>))
              else
                (Next, s1\<lparr>failed_bioprojects :=
                            AList.update bioproject_id (str_list cleaned_result)
                              (failed_bioprojects s1)\<rparr>)))"

fun convert_loop ::
  "(string list \<Rightarrow> string) \<Rightarrow> 'w fetcher \<Rightarrow> string list \<Rightarrow> 'w resolver_state
     \<Rightarrow> error option \<times> 'w resolver_state" where
  "convert_loop str_list efetch [] s = (None, s)"
| "convert_loop str_list efetch (bioproject_id # bioproject_ids) s =
     (case process_id str_list efetch bioproject_id s of
        (Next, s1) \<Rightarrow> convert_loop str_list efetch bioproject_ids s1
      | (Break, s1) \<Rightarrow> (None, s1)
      | (Raise e, s1) \<Rightarrow> (Some e, s1))"

text \<open>
  The result is what the caller gets (the two dictionaries, or the exception), the log of
  fetch attempts and the world.
\<close>

definition convert_ids_to_accessions ::
  "(string list \<Rightarrow> string) \<Rightarrow> 'w fetcher \<Rightarrow> string list \<Rightarrow> 'w
     \<Rightarrow> (error + dict \<times> dict) \<times> string list \<times> 'w" where
  "convert_ids_to_accessions str_list efetch bioproject_ids w =
     (case convert_loop str_list efetch bioproject_ids
             \<lparr>entrez = w, fetch_log = [], bioproject_accessions = [], failed_bioprojects = []\<rparr> of
        (Some e, s) \<Rightarrow> (Inl e, fetch_log s, entrez s)
      | (None, s) \<Rightarrow>
          (Inr (bioproject_accessions s, failed_bioprojects s), fetch_log s, entrez s))"

section \<open>The accession code in the words of the specification\<close>

text \<open>
  The specification describes the accession code as the substring of the accession line
  strictly after the first \<open>": "\<close>, the whole rest of the line. \<open>spec_after_first\<close> is
  that description; it is not a function of the program, which calls \<open>split\<close>.
\<close>

fun spec_after_first :: "string \<Rightarrow> string \<Rightarrow> string" where
  "spec_after_first sep [] = []"
| "spec_after_first sep (c # cs) =
     (if startswith (c # cs) sep then drop (length sep) (c # cs)
      else spec_after_first sep cs)"

section \<open>What the validation accepts\<close>

lemma py_any_map: "py_any (map P xs) = (\<exists>x \<in> set xs. P x)"
  by (simp add: py_any_def list_ex_iff)

text \<open>
  C3. \<open>check_proper_entrez_response\<close> returns true if and only if some line starts with
  \<open>"1. "\<close> and some line starts with \<open>"BioProject Accession: "\<close>, wherever those lines stand
  and whatever other lines there are.
\<close>

theorem check_proper_entrez_response_iff:
  "check_proper_entrez_response cleaned_result \<longleftrightarrow>
     (\<exists>result \<in> set cleaned_result. startswith result ''1. '') \<and>
     (\<exists>result \<in> set cleaned_result. startswith result ''BioProject Accession: '')"
  by (simp add: check_proper_entrez_response_def py_any_map)

section \<open>Strings, indexing and the retry loop\<close>

lemma startswith_append: "startswith s p \<longleftrightarrow> (\<exists>rest. s = p @ rest)"
  unfolding startswith_def
  by (metis append_eq_conv_conj append_take_drop_id)

lemma split_from_not_Nil: "split_from sep cur s \<noteq> []"
  by (induction sep cur s rule: split_from.induct) auto

lemma py_split_accession_line:
  "py_split (''BioProject Accession: '' @ rest) '': '' = ''BioProject Accession'' # py_split rest '': ''"
  by (simp add: py_split_def startswith_def)

lemma item_0: "item xs 0 = (case xs of [] \<Rightarrow> Inl IndexError | x # _ \<Rightarrow> Inr x)"
  by (cases xs) (simp_all add: item_def)

lemma item_filter_find: "item (filter P xs) 0 = (case find P xs of None \<Rightarrow> Inl IndexError | Some x \<Rightarrow> Inr x)"
  by (induction xs) (simp_all add: item_0)

lemma find_Some_ex: "(\<exists>x \<in> set xs. P x) \<Longrightarrow> \<exists>x. find P xs = Some x \<and> P x \<and> x \<in> set xs"
  by (induction xs) auto

lemma hd_split_from:
  "sep \<noteq> [] \<Longrightarrow> \<exists>p. hd (split_from sep cur s) = cur @ p \<and>
     (if contains s sep then (\<exists>more. s = p @ sep @ more) else s = p) \<and>
     (\<forall>i < length p. \<not> startswith (drop i s) sep)"
proof (induction sep cur s rule: split_from.induct)
  case (1 sep cur)
  then show ?case by (cases sep) (simp_all add: startswith_def)
next
  case (2 sep cur c cs)
  show ?case
  proof (cases "startswith (c # cs) sep")
    case True
    then obtain more where more: "c # cs = sep @ more" by (auto simp: startswith_append)
    have h: "hd (split_from sep cur (c # cs)) = cur @ []" using True by simp
    have c: "contains (c # cs) sep" using True by simp
    have e: "\<exists>more. c # cs = [] @ sep @ more" using more by simp
    show ?thesis
      apply (rule exI[of _ "[]"])
      using h c e by simp
  next
    case False
    from 2(2)[OF False 2(3)] obtain p where p: "hd (split_from sep (cur @ [c]) cs) = (cur @ [c]) @ p"
      "if contains cs sep then (\<exists>more. cs = p @ sep @ more) else cs = p"
      "\<forall>i < length p. \<not> startswith (drop i cs) sep" by blast
    have "\<forall>i < length (c # p). \<not> startswith (drop i (c # cs)) sep"
      using p(3) False by (auto simp: less_Suc_eq_0_disj)
    with p(1,2) False show ?thesis
      by (intro exI[of _ "c # p"]) (auto split: if_splits)
  qed
qed


lemma spec_after_first_accession_line:
  "spec_after_first '': '' (''BioProject Accession: '' @ rest) = rest"
  by (simp add: startswith_def)

lemma item_1: "item (x # ys) 1 = (case ys of [] \<Rightarrow> Inl IndexError | y # _ \<Rightarrow> Inr y)"
  by (cases ys) (simp_all add: item_def)

lemma parse_entry_valid:
  assumes "check_proper_entrez_response cleaned_result"
  shows "\<exists>abstract rest.
           find (\<lambda>result. startswith result ''1. '') cleaned_result = Some abstract \<and>
           find (\<lambda>result. startswith result ''BioProject Accession: '') cleaned_result
             = Some (''BioProject Accession: '' @ rest) \<and>
           parse_entry cleaned_result = Inr (hd (py_split rest '': ''), abstract)"
proof -
  from assms obtain abstract where a: "find (\<lambda>result. startswith result ''1. '') cleaned_result = Some abstract"
    using find_Some_ex[of cleaned_result "\<lambda>result. startswith result ''1. ''"]
    by (auto simp: check_proper_entrez_response_def py_any_map split: if_splits)
  from assms obtain line where l: "find (\<lambda>result. startswith result ''BioProject Accession: '') cleaned_result = Some line"
    and sw: "startswith line ''BioProject Accession: ''"
    using find_Some_ex[of cleaned_result "\<lambda>result. startswith result ''BioProject Accession: ''"]
    by (auto simp: check_proper_entrez_response_def py_any_map split: if_splits)
  from sw obtain rest where r: "line = ''BioProject Accession: '' @ rest"
    unfolding startswith_append by blast
  have ne: "py_split rest '': '' \<noteq> []" by (simp add: py_split_def split_from_not_Nil)
  have "item (py_split line '': '') 1 = Inr (hd (py_split rest '': ''))"
    unfolding r py_split_accession_line item_1 using ne by (cases "py_split rest '': ''") simp_all
  then have "parse_entry cleaned_result = Inr (hd (py_split rest '': ''), abstract)"
    unfolding parse_entry_def item_filter_find a l by simp
  with a l r show ?thesis by blast
qed

lemma process_id_valid:
  assumes "fetch_retry efetch 3 bioproject_id s = (Some entrez_result, s1)"
      and "check_proper_entrez_response (clean entrez_result)"
      and "parse_entry (clean entrez_result) = Inr (acc, abstract)"
  shows "process_id str_list efetch bioproject_id s =
           (Next, s1\<lparr>bioproject_accessions := AList.update acc abstract (bioproject_accessions s1)\<rparr>)"
  using assms by (simp add: process_id_def)

lemma fetch_retry_dicts:
  "fetch_retry efetch n bioproject_id s = (r, s1) \<Longrightarrow>
     bioproject_accessions s1 = bioproject_accessions s \<and> failed_bioprojects s1 = failed_bioprojects s"
  by (induction n arbitrary: s) (auto simp: Let_def split: prod.splits option.splits)

lemma fetch_retry_always_fails:
  assumes "\<forall>w. fst (efetch w bioproject_id) = None"
  shows "\<exists>w'. fetch_retry efetch n bioproject_id s =
           (None, s\<lparr>entrez := w', fetch_log := fetch_log s @ replicate n bioproject_id\<rparr>)"
proof (induction n arbitrary: s)
  case 0
  show ?case by (rule exI[of _ "entrez s"]) simp
next
  case (Suc n)
  obtain r w where e: "efetch (entrez s) bioproject_id = (r, w)" by (cases "efetch (entrez s) bioproject_id")
  with assms have r: "r = None" by (metis fst_conv)
  from Suc[of "s\<lparr>entrez := w, fetch_log := fetch_log s @ [bioproject_id]\<rparr>"] e r
  show ?case by (auto simp: Let_def replicate_append_same)
qed


section \<open>The valid branch\<close>

text \<open>
  C9. When \<open>check_proper_entrez_response\<close> accepts the cleaned lines, no indexing of
  the valid branch is out of range: the list of lines starting with \<open>"1. "\<close> is not empty,
  the list of lines starting with \<open>"BioProject Accession: "\<close> is not empty, and splitting
  the accession line on \<open>": "\<close> gives at least two parts, so that \<open>[0]\<close>, \<open>[0]\<close> and
  \<open>[1]\<close> each return a value and the branch raises no IndexError.
\<close>

theorem valid_response_indexing_in_range:
  assumes "check_proper_entrez_response cleaned_result"
  shows "filter (\<lambda>result. startswith result ''1. '') cleaned_result \<noteq> [] \<and>
         filter (\<lambda>result. startswith result ''BioProject Accession: '') cleaned_result \<noteq> [] \<and>
         (\<exists>abstract accession_line bioproject_accession.
            item (filter (\<lambda>result. startswith result ''1. '') cleaned_result) 0 = Inr abstract \<and>
            item (filter (\<lambda>result. startswith result ''BioProject Accession: '') cleaned_result) 0
              = Inr accession_line \<and>
            2 \<le> length (py_split accession_line '': '') \<and>
            item (py_split accession_line '': '') 1 = Inr bioproject_accession \<and>
            parse_entry cleaned_result = Inr (bioproject_accession, abstract))"
proof -
  from parse_entry_valid[OF assms] obtain abstract rest where
    a: "find (\<lambda>result. startswith result ''1. '') cleaned_result = Some abstract" and
    l: "find (\<lambda>result. startswith result ''BioProject Accession: '') cleaned_result
          = Some (''BioProject Accession: '' @ rest)" and
    p: "parse_entry cleaned_result = Inr (hd (py_split rest '': ''), abstract)"
    by blast
  have ne: "py_split rest '': '' \<noteq> []" by (simp add: py_split_def split_from_not_Nil)
  have i0: "item (filter (\<lambda>result. startswith result ''1. '') cleaned_result) 0 = Inr abstract"
    unfolding item_filter_find a by simp
  have i1: "item (filter (\<lambda>result. startswith result ''BioProject Accession: '') cleaned_result) 0
              = Inr (''BioProject Accession: '' @ rest)"
    unfolding item_filter_find l by simp
  have len: "2 \<le> length (py_split (''BioProject Accession: '' @ rest) '': '')"
    unfolding py_split_accession_line using ne by (cases "py_split rest '': ''") simp_all
  have i2: "item (py_split (''BioProject Accession: '' @ rest) '': '') 1 = Inr (hd (py_split rest '': ''))"
    unfolding py_split_accession_line item_1 using ne by (cases "py_split rest '': ''") simp_all
  have n0: "filter (\<lambda>result. startswith result ''1. '') cleaned_result \<noteq> []"
    using i0 by (auto simp: item_def)
  have n1: "filter (\<lambda>result. startswith result ''BioProject Accession: '') cleaned_result \<noteq> []"
    using i1 by (auto simp: item_def)
  from n0 n1 i0 i1 len i2 p show ?thesis by blast
qed

theorem valid_response_indexing_in_range_witness:
  "check_proper_entrez_response [''1. test'', ''BioProject Accession: test''] \<and>
   parse_entry [''1. test'', ''BioProject Accession: test''] = Inr (''test'', ''1. test'')"
proof -
  have c: "check_proper_entrez_response [''1. test'', ''BioProject Accession: test'']"
    by (simp add: check_proper_entrez_response_def py_any_def startswith_def)
  from valid_response_indexing_in_range[OF c]
  obtain acc abstract where
    "parse_entry [''1. test'', ''BioProject Accession: test''] = Inr (acc, abstract)"
    "item (filter (\<lambda>result. startswith result ''1. '') [''1. test'', ''BioProject Accession: test'']) 0 = Inr abstract"
    "item (py_split ''BioProject Accession: test'' '': '') 1 = Inr acc"
    by (auto simp: startswith_def item_def)
  then have "parse_entry [''1. test'', ''BioProject Accession: test''] = Inr (''test'', ''1. test'')"
    by (simp add: startswith_def item_def py_split_def)
  with c show ?thesis by simp
qed

section \<open>The accession code\<close>

text \<open>
  C2, as the claim states it, fails: for the accepted response below the accession line is
  \<open>"BioProject Accession: PRJNA1: draft"\<close>, the substring after its first \<open>": "\<close> is
  \<open>"PRJNA1: draft"\<close>, and the accession the program extracts is \<open>"PRJNA1"\<close>.
\<close>

theorem accession_is_whole_remainder_counterexample:
  "check_proper_entrez_response [''1. Gut study'', ''BioProject Accession: PRJNA1: draft''] \<and>
   find (\<lambda>result. startswith result ''BioProject Accession: '')
     [''1. Gut study'', ''BioProject Accession: PRJNA1: draft'']
     = Some ''BioProject Accession: PRJNA1: draft'' \<and>
   spec_after_first '': '' ''BioProject Accession: PRJNA1: draft'' = ''PRJNA1: draft'' \<and>
   parse_entry [''1. Gut study'', ''BioProject Accession: PRJNA1: draft'']
     = Inr (''PRJNA1'', ''1. Gut study'') \<and>
   ''PRJNA1'' \<noteq> spec_after_first '': '' ''BioProject Accession: PRJNA1: draft''"
  by (simp add: check_proper_entrez_response_def py_any_def startswith_def parse_entry_def
        item_def py_split_def)

text \<open>
  C2, amended. For an identifier whose cleaned response is accepted, the accession inserted
  into the result dictionary is the second field of the first accession line split on
  \<open>": "\<close>: the part of the line after its first \<open>": "\<close> and before the next
  \<open>": "\<close>, if there is one. It is the whole remainder of the line when the remainder
  contains no \<open>": "\<close>.
\<close>

theorem accession_is_second_field:
  assumes "fetch_retry efetch 3 bioproject_id s = (Some entrez_result, s1)"
      and "check_proper_entrez_response (clean entrez_result)"
  shows "\<exists>accession_line rest bioproject_accession abstract.
           find (\<lambda>result. startswith result ''BioProject Accession: '') (clean entrez_result)
             = Some accession_line \<and>
           rest = spec_after_first '': '' accession_line \<and>
           process_id str_list efetch bioproject_id s =
             (Next, s1\<lparr>bioproject_accessions :=
                         AList.update bioproject_accession abstract (bioproject_accessions s1)\<rparr>) \<and>
           (if contains rest '': '' then \<exists>more. rest = bioproject_accession @ '': '' @ more
            else rest = bioproject_accession) \<and>
           (\<forall>i < length bioproject_accession. \<not> startswith (drop i rest) '': '')"
proof -
  from parse_entry_valid[OF assms(2)] obtain abstract rest where
    l: "find (\<lambda>result. startswith result ''BioProject Accession: '') (clean entrez_result)
          = Some (''BioProject Accession: '' @ rest)" and
    p: "parse_entry (clean entrez_result) = Inr (hd (py_split rest '': ''), abstract)"
    by blast
  from hd_split_from[of "'': ''" "[]" rest] obtain acc where
    h: "hd (py_split rest '': '') = acc" and
    c: "if contains rest '': '' then \<exists>more. rest = acc @ '': '' @ more else rest = acc" and
    f: "\<forall>i < length acc. \<not> startswith (drop i rest) '': ''"
    by (auto simp: py_split_def)
  have r: "rest = spec_after_first '': '' (''BioProject Accession: '' @ rest)"
    by (simp only: spec_after_first_accession_line)
  from process_id_valid[OF assms p, of str_list] l r c f show ?thesis
    unfolding h by blast
qed

theorem accession_is_second_field_witness:
  "process_id (\<lambda>ls. '''')
     (\<lambda>w i. (Some [''1. Gut study'' @ [CHR 0x0A], [CHR 0x0A],
                    ''BioProject Accession: PRJNA1: draft'' @ [CHR 0x0A]], w))
     ''801993''
     \<lparr>entrez = (), fetch_log = [], bioproject_accessions = [], failed_bioprojects = []\<rparr>
   = (Next, \<lparr>entrez = (), fetch_log = [''801993''],
             bioproject_accessions = [(''PRJNA1'', ''1. Gut study'')], failed_bioprojects = []\<rparr>)"
proof -
  let ?efetch = "\<lambda>(w::unit) (i::string). (Some [''1. Gut study'' @ [CHR 0x0A], [CHR 0x0A],
                    ''BioProject Accession: PRJNA1: draft'' @ [CHR 0x0A]], w)"
  let ?s = "\<lparr>entrez = (), fetch_log = [], bioproject_accessions = [], failed_bioprojects = []\<rparr>"
  let ?s1 = "\<lparr>entrez = (), fetch_log = [''801993''], bioproject_accessions = [], failed_bioprojects = []\<rparr>"
  have cl: "clean [''1. Gut study'' @ [CHR 0x0A], [CHR 0x0A],
                    ''BioProject Accession: PRJNA1: draft'' @ [CHR 0x0A]]
            = [''1. Gut study'', ''BioProject Accession: PRJNA1: draft'']"
    by (simp add: clean_def strip_def isspace_def)
  have a: "fetch_retry ?efetch 3 ''801993'' ?s
           = (Some [''1. Gut study'' @ [CHR 0x0A], [CHR 0x0A],
                    ''BioProject Accession: PRJNA1: draft'' @ [CHR 0x0A]], ?s1)"
    by (simp add: numeral_3_eq_3)
  have b: "check_proper_entrez_response (clean [''1. Gut study'' @ [CHR 0x0A], [CHR 0x0A],
                    ''BioProject Accession: PRJNA1: draft'' @ [CHR 0x0A]])"
    unfolding cl by (simp add: check_proper_entrez_response_def py_any_def startswith_def)
  from accession_is_second_field[OF a b, of "\<lambda>ls. ''''"]
  obtain acc abstract where
    p: "process_id (\<lambda>ls. '''') ?efetch ''801993'' ?s =
         (Next, ?s1\<lparr>bioproject_accessions := AList.update acc abstract (bioproject_accessions ?s1)\<rparr>)"
    by blast
  have "process_id (\<lambda>ls. '''') ?efetch ''801993'' ?s =
         (Next, ?s1\<lparr>bioproject_accessions := [(''PRJNA1'', ''1. Gut study'')]\<rparr>)"
    by (simp add: process_id_def numeral_3_eq_3 clean_def strip_def isspace_def
          check_proper_entrez_response_def py_any_def parse_entry_def item_def py_split_def
          startswith_def)
  with p show ?thesis by simp
qed

section \<open>The result dictionary\<close>

text \<open>
  C8. For an identifier whose cleaned response is accepted, the body of the loop takes the
  first line starting with \<open>"1. "\<close> as the abstract and the first line starting with
  \<open>"BioProject Accession: "\<close> as the source of the accession, sets
  \<open>accession \<mapsto> abstract\<close> in the result dictionary whatever the accession was bound to
  before, leaves the failure dictionary alone, and the loop goes on with the next
  identifier. So of two identifiers with the same accession the later one's abstract stays.
\<close>

theorem valid_response_inserted_last_write_wins:
  assumes "fetch_retry efetch 3 bioproject_id s = (Some entrez_result, s1)"
      and "check_proper_entrez_response (clean entrez_result)"
  shows "\<exists>abstract accession_line bioproject_accession s2.
           find (\<lambda>result. startswith result ''1. '') (clean entrez_result) = Some abstract \<and>
           find (\<lambda>result. startswith result ''BioProject Accession: '') (clean entrez_result)
             = Some accession_line \<and>
           item (py_split accession_line '': '') 1 = Inr bioproject_accession \<and>
           s2 = s1\<lparr>bioproject_accessions :=
                     AList.update bioproject_accession abstract (bioproject_accessions s1)\<rparr> \<and>
           process_id str_list efetch bioproject_id s = (Next, s2) \<and>
           convert_loop str_list efetch (bioproject_id # bioproject_ids) s
             = convert_loop str_list efetch bioproject_ids s2 \<and>
           map_of (bioproject_accessions s2)
             = (map_of (bioproject_accessions s))(bioproject_accession \<mapsto> abstract) \<and>
           failed_bioprojects s2 = failed_bioprojects s"
proof -
  from parse_entry_valid[OF assms(2)] obtain abstract rest where
    a: "find (\<lambda>result. startswith result ''1. '') (clean entrez_result) = Some abstract" and
    l: "find (\<lambda>result. startswith result ''BioProject Accession: '') (clean entrez_result)
          = Some (''BioProject Accession: '' @ rest)" and
    p: "parse_entry (clean entrez_result) = Inr (hd (py_split rest '': ''), abstract)"
    by blast
  define acc where "acc = hd (py_split rest '': '')"
  define s2 where
    "s2 = s1\<lparr>bioproject_accessions := AList.update acc abstract (bioproject_accessions s1)\<rparr>"
  have ne: "py_split rest '': '' \<noteq> []" by (simp add: py_split_def split_from_not_Nil)
  have i: "item (py_split (''BioProject Accession: '' @ rest) '': '') 1 = Inr acc"
    unfolding py_split_accession_line item_1 acc_def using ne
    by (cases "py_split rest '': ''") simp_all
  have pr: "process_id str_list efetch bioproject_id s = (Next, s2)"
    using process_id_valid[OF assms p[folded acc_def], of str_list] by (simp add: s2_def)
  then have lp: "convert_loop str_list efetch (bioproject_id # bioproject_ids) s
                   = convert_loop str_list efetch bioproject_ids s2" by simp
  from fetch_retry_dicts[OF assms(1)] have
    m: "map_of (bioproject_accessions s2) = (map_of (bioproject_accessions s))(acc \<mapsto> abstract)"
    and f: "failed_bioprojects s2 = failed_bioprojects s"
    by (simp_all add: s2_def update_conv')
  from a l i s2_def pr lp m f show ?thesis by blast
qed

theorem valid_response_inserted_last_write_wins_witness:
  "convert_ids_to_accessions (\<lambda>ls. '''')
     (\<lambda>w i. (Some [(if i = ''801992'' then ''1. First study'' else ''1. Second study'') @ [CHR 0x0A],
                    ''BioProject Accession: PRJNA1'' @ [CHR 0x0A]], w))
     [''801992'', ''801993''] ()
   = (Inr ([(''PRJNA1'', ''1. Second study'')], []), [''801992'', ''801993''], ())"
proof -
  let ?efetch = "\<lambda>(w::unit) (i::string).
     (Some [(if i = ''801992'' then ''1. First study'' else ''1. Second study'') @ [CHR 0x0A],
            ''BioProject Accession: PRJNA1'' @ [CHR 0x0A]], w)"
  let ?s = "\<lparr>entrez = (), fetch_log = [''801992''],
             bioproject_accessions = [(''PRJNA1'', ''1. First study'')], failed_bioprojects = []\<rparr>"
  let ?s1 = "\<lparr>entrez = (), fetch_log = [''801992'', ''801993''],
             bioproject_accessions = [(''PRJNA1'', ''1. First study'')], failed_bioprojects = []\<rparr>"
  let ?lines = "[''1. Second study'' @ [CHR 0x0A], ''BioProject Accession: PRJNA1'' @ [CHR 0x0A]]"
  have a: "fetch_retry ?efetch 3 ''801993'' ?s = (Some ?lines, ?s1)"
    by (simp add: numeral_3_eq_3)
  have b: "check_proper_entrez_response (clean ?lines)"
    by (simp add: clean_def strip_def isspace_def check_proper_entrez_response_def py_any_def
          startswith_def)
  from valid_response_inserted_last_write_wins[OF a b, of "\<lambda>ls. ''''" "[]"]
  obtain s2 where
    "convert_loop (\<lambda>ls. '''') ?efetch [''801993''] ?s = convert_loop (\<lambda>ls. '''') ?efetch [] s2"
    "process_id (\<lambda>ls. '''') ?efetch ''801993'' ?s = (Next, s2)"
    by blast
  then have "convert_loop (\<lambda>ls. '''') ?efetch [''801993''] ?s = (None, s2)"
    "s2 = ?s1\<lparr>bioproject_accessions := [(''PRJNA1'', ''1. Second study'')]\<rparr>"
    by (simp_all add: process_id_def numeral_3_eq_3 clean_def strip_def isspace_def
          check_proper_entrez_response_def py_any_def parse_entry_def item_def py_split_def
          startswith_def)
  moreover have "convert_loop (\<lambda>ls. '''') ?efetch [''801992'', ''801993'']
       \<lparr>entrez = (), fetch_log = [], bioproject_accessions = [], failed_bioprojects = []\<rparr>
     = convert_loop (\<lambda>ls. '''') ?efetch [''801993''] ?s"
    by (simp add: process_id_def numeral_3_eq_3 clean_def strip_def isspace_def
          check_proper_entrez_response_def py_any_def parse_entry_def item_def py_split_def
          startswith_def)
  ultimately show ?thesis
    by (simp add: convert_ids_to_accessions_def)
qed

section \<open>The failure dictionary\<close>

lemma process_id_outcome:
  assumes "process_id str_list efetch bioproject_id s = (f, s1)"
  shows "(f = Next \<or> f = Break) \<and>
         set (map fst (failed_bioprojects s1))
           \<subseteq> insert bioproject_id (set (map fst (failed_bioprojects s))) \<and>
         (distinct (map fst (failed_bioprojects s))
            \<longrightarrow> distinct (map fst (failed_bioprojects s1)))"
proof -
  obtain r s0 where fr: "fetch_retry efetch 3 bioproject_id s = (r, s0)"
    by (cases "fetch_retry efetch 3 bioproject_id s")
  from fetch_retry_dicts[OF fr] have d: "failed_bioprojects s0 = failed_bioprojects s" by simp
  show ?thesis
  proof (cases r)
    case None
    with assms fr have "f = Break" "failed_bioprojects s1 =
        AList.update bioproject_id ''Failed to fetch'' (failed_bioprojects s0)"
      by (auto simp: process_id_def)
    with d show ?thesis by (simp add: dom_update distinct_update)
  next
    case (Some entrez_result)
    show ?thesis
    proof (cases "check_proper_entrez_response (clean entrez_result)")
      case True
      from parse_entry_valid[OF True] obtain acc abstract where
        "parse_entry (clean entrez_result) = Inr (acc, abstract)" by blast
      from process_id_valid[OF fr[unfolded Some] True this, of str_list] assms d
      show ?thesis by auto
    next
      case False
      with assms fr Some have "f = Next" "failed_bioprojects s1 =
          AList.update bioproject_id (str_list (clean entrez_result)) (failed_bioprojects s0)"
        by (auto simp: process_id_def)
      with d show ?thesis by (simp add: dom_update distinct_update)
    qed
  qed
qed

lemma convert_loop_outcome:
  "convert_loop str_list efetch bioproject_ids s = (e, s1) \<Longrightarrow>
     e = None \<and>
     set (map fst (failed_bioprojects s1))
       \<subseteq> set bioproject_ids \<union> set (map fst (failed_bioprojects s)) \<and>
     (distinct (map fst (failed_bioprojects s))
        \<longrightarrow> distinct (map fst (failed_bioprojects s1)))"
proof (induction bioproject_ids arbitrary: s)
  case Nil
  then show ?case by simp
next
  case (Cons bioproject_id bioproject_ids)
  obtain f s0 where p: "process_id str_list efetch bioproject_id s = (f, s0)"
    by (cases "process_id str_list efetch bioproject_id s")
  note o = process_id_outcome[OF p]
  from o have "f = Next \<or> f = Break" by simp
  then show ?case
  proof
    assume n: "f = Next"
    with Cons.prems p have "convert_loop str_list efetch bioproject_ids s0 = (e, s1)" by simp
    from Cons.IH[OF this] o show ?thesis by auto
  next
    assume b: "f = Break"
    with Cons.prems p have "e = None" "s1 = s0" by simp_all
    with o show ?thesis by auto
  qed
qed

text \<open>
  C10. For every identifier list and every behaviour of the fetch endpoint,
  \<open>convert_ids_to_accessions\<close> returns its two dictionaries, every key of the failure
  dictionary is one of the input identifiers, and no identifier is a key of it twice.
\<close>

theorem failure_keys_are_input_ids:
  "\<exists>accessions failed attempts w1.
     convert_ids_to_accessions str_list efetch bioproject_ids w
       = (Inr (accessions, failed), attempts, w1) \<and>
     set (map fst failed) \<subseteq> set bioproject_ids \<and>
     distinct (map fst failed)"
proof -
  let ?s = "\<lparr>entrez = w, fetch_log = [], bioproject_accessions = [], failed_bioprojects = []\<rparr>"
  obtain e s1 where c: "convert_loop str_list efetch bioproject_ids ?s = (e, s1)"
    by (cases "convert_loop str_list efetch bioproject_ids ?s")
  from convert_loop_outcome[OF c] have
    "e = None" "set (map fst (failed_bioprojects s1)) \<subseteq> set bioproject_ids"
    "distinct (map fst (failed_bioprojects s1))" by simp_all
  with c show ?thesis by (simp add: convert_ids_to_accessions_def)
qed

text \<open>
  C6. For an identifier whose fetch raises on every attempt, the body of the loop makes
  exactly three fetch attempts, sets \<open>identifier \<mapsto> "Failed to fetch"\<close> in the failure
  dictionary and leaves the result dictionary as it was. For the list of that one
  identifier, \<open>convert_ids_to_accessions\<close> returns an empty result dictionary and a
  failure dictionary with exactly that entry, after three attempts.
\<close>

theorem fetch_failing_three_times:
  assumes "\<forall>w. fst (efetch w bioproject_id) = None"
  shows "(\<exists>w1. process_id str_list efetch bioproject_id s =
            (Break, s\<lparr>entrez := w1,
                      fetch_log := fetch_log s @ [bioproject_id, bioproject_id, bioproject_id],
                      failed_bioprojects :=
                        AList.update bioproject_id ''Failed to fetch'' (failed_bioprojects s)\<rparr>)) \<and>
         (\<exists>w1. convert_ids_to_accessions str_list efetch [bioproject_id] w =
            (Inr ([], [(bioproject_id, ''Failed to fetch'')]),
             [bioproject_id, bioproject_id, bioproject_id], w1))"
proof -
  have p: "\<exists>w1. process_id str_list efetch bioproject_id s =
            (Break, s\<lparr>entrez := w1,
                      fetch_log := fetch_log s @ [bioproject_id, bioproject_id, bioproject_id],
                      failed_bioprojects :=
                        AList.update bioproject_id ''Failed to fetch'' (failed_bioprojects s)\<rparr>)"
    for s :: "'a resolver_state"
  proof -
    from fetch_retry_always_fails[where efetch = efetch and bioproject_id = bioproject_id
        and n = 3 and s = s] assms obtain w1 where
      "fetch_retry efetch 3 bioproject_id s =
         (None, s\<lparr>entrez := w1, fetch_log := fetch_log s @ replicate 3 bioproject_id\<rparr>)" by blast
    then show ?thesis by (auto simp: process_id_def numeral_3_eq_3)
  qed
  from p[of "\<lparr>entrez = w, fetch_log = [], bioproject_accessions = [], failed_bioprojects = []\<rparr>"]
  have "\<exists>w1. convert_ids_to_accessions str_list efetch [bioproject_id] w =
            (Inr ([], [(bioproject_id, ''Failed to fetch'')]),
             [bioproject_id, bioproject_id, bioproject_id], w1)"
    by (auto simp: convert_ids_to_accessions_def)
  with p[of s] show ?thesis by blast
qed

theorem fetch_failing_three_times_witness:
  "convert_ids_to_accessions (\<lambda>ls. '''') (\<lambda>w i. (None, Suc w)) [''801993''] 0 =
     (Inr ([], [(''801993'', ''Failed to fetch'')]), [''801993'', ''801993'', ''801993''], 3)"
proof -
  have a: "\<forall>w. fst ((\<lambda>(w::nat) (i::string). (None :: string list option, Suc w)) w ''801993'') = None"
    by simp
  from fetch_failing_three_times[where efetch = "\<lambda>(w::nat) (i::string). (None, Suc w)"
      and bioproject_id = "''801993''" and str_list = "\<lambda>ls. ''''" and w = 0] a
  obtain w1 where
    "convert_ids_to_accessions (\<lambda>ls. '''') (\<lambda>w i. (None, Suc w)) [''801993''] 0 =
     (Inr ([], [(''801993'', ''Failed to fetch'')]), [''801993'', ''801993'', ''801993''], w1)"
    by blast
  moreover have "snd (snd (convert_ids_to_accessions (\<lambda>ls. '''')
       (\<lambda>w i. (None :: string list option, Suc w)) [''801993''] 0)) = 3"
    by (simp add: convert_ids_to_accessions_def process_id_def numeral_3_eq_3)
  ultimately show ?thesis by simp
qed

section \<open>After a fetch that failed three times\<close>

text \<open>
  C1 says that after an identifier whose fetch failed three times the remaining identifiers
  are still processed. The program at the identifiers \<open>801992\<close>, whose fetch always raises,
  and \<open>801993\<close>, whose fetch gives a well-formed record: the run ends after the three
  attempts for \<open>801992\<close>, \<open>801993\<close> is never fetched and the result dictionary is empty,
  while on \<open>801993\<close> alone the result dictionary has its entry.
\<close>

theorem fetch_failure_stops_the_loop:
  "convert_ids_to_accessions str_list
     (\<lambda>w i. if i = ''801992'' then (None, w)
             else (Some [''1. Gut study'' @ [CHR 0x0A],
                         ''BioProject Accession: PRJNA2'' @ [CHR 0x0A]], w))
     [''801992'', ''801993''] ()
   = (Inr ([], [(''801992'', ''Failed to fetch'')]), [''801992'', ''801992'', ''801992''], ()) \<and>
   convert_ids_to_accessions str_list
     (\<lambda>w i. if i = ''801992'' then (None, w)
             else (Some [''1. Gut study'' @ [CHR 0x0A],
                         ''BioProject Accession: PRJNA2'' @ [CHR 0x0A]], w))
     [''801993''] ()
   = (Inr ([(''PRJNA2'', ''1. Gut study'')], []), [''801993''], ())"
  by (simp add: convert_ids_to_accessions_def process_id_def numeral_3_eq_3 clean_def strip_def
        isspace_def check_proper_entrez_response_def py_any_def parse_entry_def item_def
        py_split_def startswith_def)

section \<open>Cleaning\<close>

lemma strip_Nil_iff: "strip s = [] \<longleftrightarrow> (\<forall>c \<in> set s. isspace c)"
proof
  assume "strip s = []"
  then have all: "\<forall>c \<in> set (dropWhile isspace s). isspace c" by (simp add: strip_def)
  show "\<forall>c \<in> set s. isspace c"
  proof (rule ccontr)
    assume "\<not> (\<forall>c \<in> set s. isspace c)"
    then have ne: "dropWhile isspace s \<noteq> []" by simp
    from hd_dropWhile[OF ne] hd_in_set[OF ne] all show False by blast
  qed
next
  assume "\<forall>c \<in> set s. isspace c"
  then have "dropWhile isspace s = []" by simp
  then have "strip s = rev (dropWhile isspace (rev []))" by (simp only: strip_def)
  then show "strip s = []" by simp
qed

lemma last_dropWhile_keep: "dropWhile P xs \<noteq> [] \<Longrightarrow> last (dropWhile P xs) = last xs"
  by (induction xs) (auto split: if_splits)

lemma strip_ends:
  assumes "strip s \<noteq> []"
  shows "\<not> isspace (hd (strip s)) \<and> \<not> isspace (last (strip s))"
proof -
  let ?d = "dropWhile isspace s"
  let ?e = "dropWhile isspace (rev ?d)"
  from assms have e: "?e \<noteq> []" by (simp add: strip_def)
  then have d: "?d \<noteq> []" by (auto dest: set_dropWhileD)
  have "last (strip s) = hd ?e" using e by (simp add: strip_def last_rev)
  moreover have "\<not> isspace (hd ?e)" using e by (rule hd_dropWhile)
  moreover have "hd (strip s) = last ?e" using e by (simp add: strip_def hd_rev)
  moreover have "last ?e = last (rev ?d)" using e by (rule last_dropWhile_keep)
  moreover have "last (rev ?d) = hd ?d" using d by (simp add: last_rev)
  moreover have "\<not> isspace (hd ?d)" using d by (rule hd_dropWhile)
  ultimately show ?thesis by simp
qed

lemma dropWhile_self: "xs = [] \<or> \<not> P (hd xs) \<Longrightarrow> dropWhile P xs = xs"
  by (cases xs) auto

lemma strip_idem: "strip (strip s) = strip s"
proof (cases "strip s = []")
  case True
  have "strip [] = []" by (simp add: strip_def)
  with True show ?thesis by simp
next
  case False
  from strip_ends[OF False] have h: "\<not> isspace (hd (strip s))" and l: "\<not> isspace (last (strip s))"
    by simp_all
  have 1: "dropWhile isspace (strip s) = strip s" using h by (simp add: dropWhile_self)
  have "hd (rev (strip s)) = last (strip s)" using False by (simp add: hd_rev)
  then have 2: "dropWhile isspace (rev (strip s)) = rev (strip s)" using l by (simp add: dropWhile_self)
  show ?thesis unfolding strip_def[of "strip s"] 1 2 by simp
qed

lemma rev_take_drop: "rev (dropWhile P ys) @ rev (takeWhile P ys) = rev ys"
  by (metis rev_append takeWhile_dropWhile_id)

lemma strip_decomp:
  "\<exists>before after. s = before @ strip s @ after \<and>
     (\<forall>c \<in> set before. isspace c) \<and> (\<forall>c \<in> set after. isspace c)"
proof -
  let ?d = "dropWhile isspace s"
  have 1: "s = takeWhile isspace s @ ?d" by simp
  have 2: "?d = strip s @ rev (takeWhile isspace (rev ?d))"
    using rev_take_drop[of isspace "rev ?d"] by (simp add: strip_def)
  have 3: "s = takeWhile isspace s @ strip s @ rev (takeWhile isspace (rev ?d))"
    using 1 2 by metis
  have 4: "\<forall>c \<in> set (takeWhile isspace s). isspace c" by (auto dest: set_takeWhileD)
  have 5: "\<forall>c \<in> set (rev (takeWhile isspace (rev ?d))). isspace c"
    by (auto dest: set_takeWhileD)
  from 3 4 5 show ?thesis by blast
qed

lemma trimmed_line:
  "(\<exists>before after. result = before @ strip result @ after \<and>
      (\<forall>c \<in> set before. isspace c) \<and> (\<forall>c \<in> set after. isspace c)) \<and>
   (strip result \<noteq> [] \<longrightarrow>
      \<not> isspace (hd (strip result)) \<and> \<not> isspace (last (strip result))) \<and>
   (strip result = [] \<longleftrightarrow> (\<forall>c \<in> set result. isspace c))"
  using strip_decomp[of result] strip_ends[of result] strip_Nil_iff[of result] by blast

text \<open>
  C7, as the claim states it, fails: a raw line of two spaces and a line feed is not equal
  to \<open>"\n"\<close>, so it is kept, and trimming it leaves the empty string in the cleaned
  sequence.
\<close>

theorem cleaned_lines_not_blank_counterexample:
  "clean [''1. Gut study'' @ [CHR 0x0A], ''  '' @ [CHR 0x0A], [CHR 0x0A]] = [''1. Gut study'', ''''] \<and>
   strip '''' = ''''"
  by (simp add: clean_def strip_def isspace_def)

text \<open>
  C7, amended. The cleaning step drops exactly the raw lines equal to \<open>"\n"\<close> and keeps
  every other line, trimmed, in the order of the response. Each kept line is its raw line
  without the whitespace at its two ends: it has no whitespace at either end, and it is the
  empty string exactly when the raw line consists of whitespace only. So a raw line of
  whitespace other than \<open>"\n"\<close> itself stays in the cleaned sequence as an empty string.
\<close>

theorem cleaned_lines_trimmed:
  "list_all2
     (\<lambda>result line.
        line = strip result \<and>
        (\<exists>before after. result = before @ line @ after \<and>
           (\<forall>c \<in> set before. isspace c) \<and> (\<forall>c \<in> set after. isspace c)) \<and>
        (line \<noteq> [] \<longrightarrow> \<not> isspace (hd line) \<and> \<not> isspace (last line)) \<and>
        (line = [] \<longleftrightarrow> (\<forall>c \<in> set result. isspace c)))
     (filter (\<lambda>result. result \<noteq> [CHR 0x0A]) entrez_result) (clean entrez_result) \<and>
   (\<forall>result \<in> set entrez_result.
      result \<noteq> [CHR 0x0A] \<longrightarrow> strip result \<in> set (clean entrez_result)) \<and>
   (\<forall>result \<in> set entrez_result.
      result \<noteq> [CHR 0x0A] \<and> (\<forall>c \<in> set result. isspace c)
        \<longrightarrow> [] \<in> set (clean entrez_result)) \<and>
   (\<forall>line \<in> set (clean entrez_result).
      strip line = line \<and>
      (line \<noteq> [] \<longrightarrow> \<not> isspace (hd line) \<and> \<not> isspace (last line)) \<and>
      (\<exists>result \<in> set entrez_result.
         result \<noteq> [CHR 0x0A] \<and> line = strip result \<and>
         (line = [] \<longleftrightarrow> (\<forall>c \<in> set result. isspace c))))"
proof (intro conjI)
  show "list_all2
     (\<lambda>result line.
        line = strip result \<and>
        (\<exists>before after. result = before @ line @ after \<and>
           (\<forall>c \<in> set before. isspace c) \<and> (\<forall>c \<in> set after. isspace c)) \<and>
        (line \<noteq> [] \<longrightarrow> \<not> isspace (hd line) \<and> \<not> isspace (last line)) \<and>
        (line = [] \<longleftrightarrow> (\<forall>c \<in> set result. isspace c)))
     (filter (\<lambda>result. result \<noteq> [CHR 0x0A]) entrez_result) (clean entrez_result)"
    unfolding clean_def list_all2_map2 list_all2_same
    using trimmed_line by blast
next
  show "\<forall>result \<in> set entrez_result.
      result \<noteq> [CHR 0x0A] \<longrightarrow> strip result \<in> set (clean entrez_result)"
    by (auto simp: clean_def)
next
  show "\<forall>result \<in> set entrez_result.
      result \<noteq> [CHR 0x0A] \<and> (\<forall>c \<in> set result. isspace c)
        \<longrightarrow> [] \<in> set (clean entrez_result)"
  proof (intro ballI impI)
    fix result assume r: "result \<in> set entrez_result"
      "result \<noteq> [CHR 0x0A] \<and> (\<forall>c \<in> set result. isspace c)"
    then have "strip result = []" using strip_Nil_iff[of result] by blast
    moreover have "strip result \<in> set (clean entrez_result)" using r by (auto simp: clean_def)
    ultimately show "[] \<in> set (clean entrez_result)" by simp
  qed
next
  show "\<forall>line \<in> set (clean entrez_result).
      strip line = line \<and>
      (line \<noteq> [] \<longrightarrow> \<not> isspace (hd line) \<and> \<not> isspace (last line)) \<and>
      (\<exists>result \<in> set entrez_result.
         result \<noteq> [CHR 0x0A] \<and> line = strip result \<and>
         (line = [] \<longleftrightarrow> (\<forall>c \<in> set result. isspace c)))"
  proof
    fix line assume "line \<in> set (clean entrez_result)"
    then obtain result where r: "result \<in> set entrez_result" "result \<noteq> [CHR 0x0A]"
      "line = strip result" by (auto simp: clean_def)
    have "strip line = line" unfolding r(3) by (rule strip_idem)
    moreover have "line \<noteq> [] \<longrightarrow> \<not> isspace (hd line) \<and> \<not> isspace (last line)"
      unfolding r(3) using strip_ends by blast
    moreover have "line = [] \<longleftrightarrow> (\<forall>c \<in> set result. isspace c)"
      unfolding r(3) by (rule strip_Nil_iff)
    ultimately show "strip line = line \<and>
       (line \<noteq> [] \<longrightarrow> \<not> isspace (hd line) \<and> \<not> isspace (last line)) \<and>
       (\<exists>result \<in> set entrez_result.
          result \<noteq> [CHR 0x0A] \<and> line = strip result \<and>
          (line = [] \<longleftrightarrow> (\<forall>c \<in> set result. isspace c)))"
      using r by blast
  qed
qed

theorem cleaned_lines_trimmed_witness:
  "clean [''  1. Gut study '' @ [CHR 0x0A], [CHR 0x0A], [CHR 0x09, CHR 0x0A]] = [''1. Gut study'', ''''] \<and>
   [CHR 0x09, CHR 0x0A] \<noteq> [CHR 0x0A] \<and> isspace (CHR 0x09) \<and> isspace (CHR 0x0A) \<and>
   [] \<in> set (clean [''  1. Gut study '' @ [CHR 0x0A], [CHR 0x0A], [CHR 0x09, CHR 0x0A]]) \<and>
   strip (''  1. Gut study '' @ [CHR 0x0A])
     \<in> set (clean [''  1. Gut study '' @ [CHR 0x0A], [CHR 0x0A], [CHR 0x09, CHR 0x0A]]) \<and>
   strip ''1. Gut study'' = ''1. Gut study'' \<and> \<not> isspace (hd ''1. Gut study'') \<and>
   \<not> isspace (last ''1. Gut study'')"
proof -
  let ?raw = "[''  1. Gut study '' @ [CHR 0x0A], [CHR 0x0A], [CHR 0x09, CHR 0x0A]]"
  have c: "clean ?raw = [''1. Gut study'', '''']"
    by (simp add: clean_def strip_def isspace_def)
  have w: "[CHR 0x09, CHR 0x0A] \<in> set ?raw" "[CHR 0x09, CHR 0x0A] \<noteq> [CHR 0x0A]"
    "\<forall>c \<in> set [CHR 0x09, CHR 0x0A]. isspace c"
    by (simp_all add: isspace_def)
  have g: "(''  1. Gut study '' @ [CHR 0x0A]) \<in> set ?raw"
    "(''  1. Gut study '' @ [CHR 0x0A]) \<noteq> [CHR 0x0A]" by simp_all
  note t = cleaned_lines_trimmed[of ?raw]
  from t w have e: "[] \<in> set (clean ?raw)" by blast
  from t g have k: "strip (''  1. Gut study '' @ [CHR 0x0A]) \<in> set (clean ?raw)" by blast
  have m: "''1. Gut study'' \<in> set (clean ?raw)" unfolding c by simp
  from t m have "strip ''1. Gut study'' = ''1. Gut study'' \<and>
        (''1. Gut study'' \<noteq> [] \<longrightarrow> \<not> isspace (hd ''1. Gut study'') \<and> \<not> isspace (last ''1. Gut study''))"
    by blast
  then have p: "strip ''1. Gut study'' = ''1. Gut study''" "\<not> isspace (hd ''1. Gut study'')"
    "\<not> isspace (last ''1. Gut study'')" by simp_all
  from w have s: "isspace (CHR 0x09)" "isspace (CHR 0x0A)" by simp_all
  from c w(2) s e k p show ?thesis by (intro conjI)
qed

section \<open>The keyword search\<close>

lemma search_loop_append:
  "search_loop get from_date to_date (xs @ ys) s =
     (case search_loop get from_date to_date xs s of
        (None, s1) \<Rightarrow> search_loop get from_date to_date ys s1
      | (Some e, s1) \<Rightarrow> (Some e, s1))"
  by (induction xs arbitrary: s) (auto simp: Let_def split: prod.splits option.splits)

lemma search_loop_completed:
  "search_loop get from_date to_date keywords s = (None, s1) \<Longrightarrow>
     \<exists>new. requests s1 = requests s @ new \<and>
           map fst new = map (\<lambda>keyword. search_url keyword from_date to_date) keywords \<and>
           results_list s1 = results_list s @ concat (map (\<lambda>q. ids_of (snd q)) new)"
proof (induction "keywords" arbitrary: s)
  case Nil
  then show ?case by simp
next
  case (Cons keyword ks)
  let ?url = "search_url keyword from_date to_date"
  obtain r w where g: "get (net s) ?url = (r, w)" by (cases "get (net s) ?url")
  from Cons.prems g obtain resp ids where
    r: "r = Some resp" "status_code resp = 200" "idlist resp = Some ids" and
    l: "search_loop get from_date to_date ks
          (s\<lparr>net := w, requests := requests s @ [(?url, r)],
              results_list := results_list s @ ids\<rparr>) = (None, s1)"
    by (auto simp: Let_def split: option.splits if_splits)
  from Cons.IH[OF l] obtain new where
    n: "requests s1 = (requests s @ [(?url, r)]) @ new"
       "map fst new = map (\<lambda>keyword. search_url keyword from_date to_date) ks"
       "results_list s1 = (results_list s @ ids) @ concat (map (\<lambda>q. ids_of (snd q)) new)"
    by auto
  have "ids_of r = ids" using r by (simp add: ids_of_def)
  with n show ?case
    by (intro exI[of _ "(?url, r) # new"]) simp
qed



text \<open>
  C5. When the phrases before \<open>keyword\<close> were answered and the request for \<open>keyword\<close>
  returns a status other than 200, \<open>search_in_bioproject\<close> raises \<open>SystemExit 1\<close>:
  the caller gets no identifier list, and the last request made is the one for \<open>keyword\<close>,
  so that no phrase after it is queried.
\<close>

theorem non_200_ends_the_search:
  assumes "search_loop get from_date to_date before
             \<lparr>net = w, requests = [], results_list = []\<rparr> = (None, s1)"
      and "get (net s1) (search_url keyword from_date to_date) = (Some resp, w1)"
      and "status_code resp \<noteq> 200"
  shows "search_in_bioproject get set_order (before @ keyword # later) from_date to_date w
           = (Inl (SystemExit 1),
              requests s1 @ [(search_url keyword from_date to_date, Some resp)], w1) \<and>
         map fst (requests s1) = map (\<lambda>keyword. search_url keyword from_date to_date) before"
proof -
  from search_loop_completed[OF assms(1)] have
    q: "map fst (requests s1) = map (\<lambda>keyword. search_url keyword from_date to_date) before"
    by auto
  have "search_loop get from_date to_date (keyword # later) s1
          = (Some (SystemExit 1),
             s1\<lparr>net := w1,
                requests := requests s1 @ [(search_url keyword from_date to_date, Some resp)]\<rparr>)"
    using assms(2,3) by (simp add: Let_def)
  then have "search_loop get from_date to_date (before @ keyword # later)
               \<lparr>net = w, requests = [], results_list = []\<rparr>
          = (Some (SystemExit 1),
             s1\<lparr>net := w1,
                requests := requests s1 @ [(search_url keyword from_date to_date, Some resp)]\<rparr>)"
    using assms(1) by (simp add: search_loop_append)
  then show ?thesis using q by (simp add: search_in_bioproject_def)
qed



theorem non_200_ends_the_search_witness:
  "search_in_bioproject
     (\<lambda>w url. (Some (if w = 0 then \<lparr>status_code = 200, idlist = Some [''801993'']\<rparr>
                      else \<lparr>status_code = 500, idlist = None\<rparr>), Suc w))
     (\<lambda>xs. xs) [''Fecal Microbiota'', ''Fecal'', ''FMT''] ''2022/01/01'' ''2022/08/31'' 0
   = (Inl (SystemExit 1),
      [(search_url ''Fecal Microbiota'' ''2022/01/01'' ''2022/08/31'',
        Some \<lparr>status_code = 200, idlist = Some [''801993'']\<rparr>),
       (search_url ''Fecal'' ''2022/01/01'' ''2022/08/31'',
        Some \<lparr>status_code = 500, idlist = None\<rparr>)],
      2)"
proof -
  let ?get = "\<lambda>(w::nat) (url::string).
     (Some (if w = 0 then \<lparr>status_code = 200, idlist = Some [''801993'']\<rparr>
            else \<lparr>status_code = 500, idlist = None\<rparr>), Suc w)"
  let ?s1 = "\<lparr>net = Suc 0,
              requests = [(search_url ''Fecal Microbiota'' ''2022/01/01'' ''2022/08/31'',
                           Some \<lparr>status_code = 200, idlist = Some [''801993'']\<rparr>)],
              results_list = [''801993'']\<rparr>"
  have a: "search_loop ?get ''2022/01/01'' ''2022/08/31'' [''Fecal Microbiota'']
             \<lparr>net = 0, requests = [], results_list = []\<rparr> = (None, ?s1)"
    by (simp add: Let_def)
  have b: "?get (net ?s1) (search_url ''Fecal'' ''2022/01/01'' ''2022/08/31'')
             = (Some \<lparr>status_code = 500, idlist = None\<rparr>, 2)"
    by simp
  have c: "status_code \<lparr>status_code = 500, idlist = None\<rparr> \<noteq> 200" by simp
  from non_200_ends_the_search[where get = ?get and set_order = "\<lambda>xs. xs"
      and later = "[''FMT'']", OF a b c]
  show ?thesis by simp
qed

end
